theory Spec2Isabelle
  imports Main
begin

section \<open>DOM elements\<close>

text \<open>
  The script of \<^verbatim>\<open>src/script.js\<close> reads and writes three things of a DOM element: its
  class list (\<^verbatim>\<open>classList.add/remove/toggle/contains\<close>), its content attributes
  (\<^verbatim>\<open>setAttribute/getAttribute\<close>, and \<^verbatim>\<open>id\<close>, which reflects the attribute of that name)
  and its \<^verbatim>\<open>hidden\<close> property. An element is a record of the three.
\<close>

record element =
  classList :: "string list"
  attrs :: "string \<rightharpoonup> string"
  hidden :: bool

definition classList_contains :: "string \<Rightarrow> element \<Rightarrow> bool" where
  "classList_contains c e = (c \<in> set (classList e))"

definition classList_add :: "string \<Rightarrow> element \<Rightarrow> element" where
  "classList_add c e =
     (if c \<in> set (classList e) then e else e\<lparr>classList := classList e @ [c]\<rparr>)"

definition classList_remove :: "string \<Rightarrow> element \<Rightarrow> element" where
  "classList_remove c e = e\<lparr>classList := removeAll c (classList e)\<rparr>"

text \<open>\<^verbatim>\<open>classList.toggle(token, force)\<close> with the second argument given: add when it is
  true, remove when it is false.\<close>

definition classList_toggle :: "string \<Rightarrow> bool \<Rightarrow> element \<Rightarrow> element" where
  "classList_toggle c force e = (if force then classList_add c e else classList_remove c e)"

definition setAttribute :: "string \<Rightarrow> string \<Rightarrow> element \<Rightarrow> element" where
  "setAttribute k v e = e\<lparr>attrs := (attrs e)(k \<mapsto> v)\<rparr>"

definition getAttribute :: "string \<Rightarrow> element \<Rightarrow> string option" where
  "getAttribute k e = attrs e k"

section \<open>JavaScript numbers used as indices\<close>

text \<open>
  The slide index is a JavaScript number, a binary64 floating-point value. The values
  modelled are the integers, the two infinities and \<^verbatim>\<open>NaN\<close>; \<open>JInt x\<close> stands for the
  number \<open>x\<close> when \<open>x\<close> is representable (every integer up to \<open>2^53\<close> in magnitude is).
  Numbers with a fractional part, which only a malformed \<^verbatim>\<open>data-to\<close> attribute can bring
  in, are outside the type. Negative zero is strictly equal to zero and falsy like it,
  and is the integer 0 here.

  Sums and differences are rounded as the machine rounds them: \<open>double_round\<close> takes the
  exact integer result to the nearest number with a significand of 53 bits, ties to the
  even significand, and to an infinity from \<open>2^1024\<close> on. So \<^verbatim>\<open>2^53 + 1\<close> is \<^verbatim>\<open>2^53\<close>. The
  remainder operator \<^verbatim>\<open>%\<close> truncates (its result has the sign of the dividend) and is
  exact; it is \<^verbatim>\<open>NaN\<close> for a zero divisor or an infinite dividend, and the dividend itself
  for an infinite divisor.
\<close>

datatype jsnum = JInt int | JInf | JNegInf | JNaN

text \<open>The number of binary digits of a natural number.\<close>

fun bitlen :: "nat \<Rightarrow> nat" where
  "bitlen n = (if n = 0 then 0 else Suc (bitlen (n div 2)))"

declare bitlen.simps [simp del]

definition double_round :: "int \<Rightarrow> jsnum" where
  "double_round x =
     (if \<bar>x\<bar> \<le> 9007199254740992 then JInt x
      else (let e = bitlen (nat \<bar>x\<bar>) - 53;
                q = \<bar>x\<bar> div 2 ^ e;
                r = \<bar>x\<bar> mod 2 ^ e;
                q' = (if 2 ^ e < 2 * r \<or> (2 * r = 2 ^ e \<and> odd q) then q + 1 else q)
            in if 2 ^ 1024 \<le> q' * 2 ^ e then (if x < 0 then JNegInf else JInf)
               else JInt (sgn x * (q' * 2 ^ e))))"

fun js_add :: "jsnum \<Rightarrow> jsnum \<Rightarrow> jsnum" where
  "js_add (JInt a) (JInt b) = double_round (a + b)"
| "js_add JNaN _ = JNaN"
| "js_add _ JNaN = JNaN"
| "js_add JInf JNegInf = JNaN"
| "js_add JNegInf JInf = JNaN"
| "js_add JInf _ = JInf"
| "js_add _ JInf = JInf"
| "js_add JNegInf _ = JNegInf"
| "js_add _ JNegInf = JNegInf"

fun js_sub :: "jsnum \<Rightarrow> jsnum \<Rightarrow> jsnum" where
  "js_sub (JInt a) (JInt b) = double_round (a - b)"
| "js_sub JNaN _ = JNaN"
| "js_sub _ JNaN = JNaN"
| "js_sub JInf JInf = JNaN"
| "js_sub JNegInf JNegInf = JNaN"
| "js_sub JInf _ = JInf"
| "js_sub _ JInf = JNegInf"
| "js_sub JNegInf _ = JNegInf"
| "js_sub _ JNegInf = JInf"

fun js_rem :: "jsnum \<Rightarrow> jsnum \<Rightarrow> jsnum" where
  "js_rem (JInt a) (JInt b) = (if b = 0 then JNaN else JInt (sgn a * (\<bar>a\<bar> mod \<bar>b\<bar>)))"
| "js_rem (JInt a) JInf = JInt a"
| "js_rem (JInt a) JNegInf = JInt a"
| "js_rem _ _ = JNaN"

text \<open>\<^verbatim>\<open>x || 0\<close> on a number: \<^verbatim>\<open>0\<close> and \<^verbatim>\<open>NaN\<close> are falsy, every other number is truthy,
  the infinities included.\<close>

definition js_or0 :: "jsnum \<Rightarrow> jsnum" where
  "js_or0 x = (if x = JInt 0 \<or> x = JNaN then JInt 0 else x)"

text \<open>\<^verbatim>\<open>Array.prototype.findIndex\<close>: the index of the first element that satisfies the
  predicate, \<^verbatim>\<open>-1\<close> when there is none.\<close>

fun findIndexFrom :: "('a \<Rightarrow> bool) \<Rightarrow> nat \<Rightarrow> 'a list \<Rightarrow> jsnum" where
  "findIndexFrom P i [] = JInt (- 1)"
| "findIndexFrom P i (x # xs) = (if P x then JInt (int i) else findIndexFrom P (Suc i) xs)"

definition findIndex :: "('a \<Rightarrow> bool) \<Rightarrow> 'a list \<Rightarrow> jsnum" where
  "findIndex P xs = findIndexFrom P 0 xs"

section \<open>The slider\<close>

text \<open>
  The closure variables of the slider: the panels \<^verbatim>\<open>slides\<close>, the indicators \<^verbatim>\<open>dots\<close>,
  \<^verbatim>\<open>current\<close>, \<^verbatim>\<open>isPaused\<close>, and the two variables \<^verbatim>\<open>startX\<close> and \<^verbatim>\<open>startTime\<close> of the
  touch handlers. Pointer coordinates and clock readings are integers here.
\<close>

record slider =
  slides :: "element list"
  dots :: "element list"
  current :: jsnum
  isPaused :: bool
  startX :: int
  startTime :: int

text \<open>The body of the \<^verbatim>\<open>forEach\<close> callback of \<^verbatim>\<open>setActive\<close> on panel \<open>i\<close>.\<close>

definition markSlide :: "jsnum \<Rightarrow> nat \<Rightarrow> element \<Rightarrow> element" where
  "markSlide index i s =
     (if JInt (int i) = index
      then setAttribute ''aria-hidden'' ''false'' (classList_add ''active'' s)
      else setAttribute ''aria-hidden'' ''true'' (classList_remove ''active'' s))"

definition markDot :: "jsnum \<Rightarrow> nat \<Rightarrow> element \<Rightarrow> element" where
  "markDot index i d = classList_toggle ''active'' (JInt (int i) = index) d"

definition setActive :: "jsnum \<Rightarrow> slider \<Rightarrow> slider" where
  "setActive index s =
     s\<lparr>slides := map (\<lambda>(i, e). markSlide index i e) (enumerate 0 (slides s)),
       dots := map (\<lambda>(i, d). markDot index i d) (enumerate 0 (dots s)),
       current := index\<rparr>"

text \<open>\<^verbatim>\<open>next()\<close> and \<^verbatim>\<open>prev()\<close> of the source; \<open>next\<close> is a keyword of Isabelle, hence
  the suffix.\<close>

definition nextSlide :: "slider \<Rightarrow> slider" where
  "nextSlide s =
     setActive (js_rem (js_add (current s) (JInt 1)) (JInt (int (length (slides s))))) s"

definition prevSlide :: "slider \<Rightarrow> slider" where
  "prevSlide s =
     setActive
       (js_rem (js_add (js_sub (current s) (JInt 1)) (JInt (int (length (slides s)))))
          (JInt (int (length (slides s))))) s"

abbreviation is_active :: "element \<Rightarrow> bool" where
  "is_active \<equiv> classList_contains ''active''"

section \<open>Facts about the element operations\<close>

lemma contains_add [simp]: "classList_contains c (classList_add c e)"
  by (simp add: classList_contains_def classList_add_def)

lemma contains_remove [simp]: "\<not> classList_contains c (classList_remove c e)"
  by (simp add: classList_contains_def classList_remove_def)

lemma attrs_setAttribute [simp]: "attrs (setAttribute k v e) k = Some v"
  by (simp add: setAttribute_def)

lemma classList_setAttribute [simp]: "classList (setAttribute k v e) = classList e"
  by (simp add: setAttribute_def)

lemma contains_setAttribute [simp]:
  "classList_contains c (setAttribute k v e) = classList_contains c e"
  by (simp add: classList_contains_def)

lemma markSlide_active [simp]: "is_active (markSlide index i e) = (JInt (int i) = index)"
  by (simp add: markSlide_def)

lemma markSlide_hidden [simp]:
  "attrs (markSlide index i e) ''aria-hidden'' =
     Some (if JInt (int i) = index then ''false'' else ''true'')"
  by (simp add: markSlide_def)

lemma markDot_active [simp]: "is_active (markDot index i e) = (JInt (int i) = index)"
  by (simp add: markDot_def classList_toggle_def)

lemma length_slides_setActive [simp]: "length (slides (setActive index s)) = length (slides s)"
  by (simp add: setActive_def)

lemma length_dots_setActive [simp]: "length (dots (setActive index s)) = length (dots s)"
  by (simp add: setActive_def)

lemma current_setActive [simp]: "current (setActive index s) = index"
  by (simp add: setActive_def)

lemma isPaused_setActive [simp]: "isPaused (setActive index s) = isPaused s"
  by (simp add: setActive_def)

lemma nth_slides_setActive [simp]:
  "j < length (slides s) \<Longrightarrow> slides (setActive index s) ! j = markSlide index j (slides s ! j)"
  by (simp add: setActive_def nth_enumerate_eq)

lemma nth_dots_setActive [simp]:
  "j < length (dots s) \<Longrightarrow> dots (setActive index s) ! j = markDot index j (dots s ! j)"
  by (simp add: setActive_def nth_enumerate_eq)

text \<open>A list in which exactly position \<open>i\<close> satisfies \<open>P\<close> has one element that does.\<close>

lemma count_one_at:
  assumes "i < length xs" and "\<And>j. j < length xs \<Longrightarrow> P (xs ! j) = (j = i)"
  shows "length (filter P xs) = 1"
proof -
  have "{j. j < length xs \<and> P (xs ! j)} = {i}"
    using assms by auto
  then show ?thesis
    by (simp add: length_filter_conv_card)
qed

lemma count_none:
  assumes "\<And>j. j < length xs \<Longrightarrow> \<not> P (xs ! j)"
  shows "filter P xs = []"
  using assms by (auto simp: filter_empty_conv in_set_conv_nth)

lemma slides_inactive_out_of_range:
  assumes "i < 0 \<or> int (length (slides s)) \<le> i"
  shows "filter is_active (slides (setActive (JInt i) s)) = []"
proof (rule count_none)
  fix j assume "j < length (slides (setActive (JInt i) s))"
  with assms show "\<not> is_active (slides (setActive (JInt i) s) ! j)"
    by auto
qed

lemma dots_inactive_out_of_range:
  assumes "i < 0 \<or> int (length (dots s)) \<le> i"
  shows "filter is_active (dots (setActive (JInt i) s)) = []"
proof (rule count_none)
  fix j assume "j < length (dots (setActive (JInt i) s))"
  with assms show "\<not> is_active (dots (setActive (JInt i) s) ! j)"
    by auto
qed

section \<open>Claims about the slider\<close>

text \<open>
  Claim C1 (as amended). For every valid index \<open>i\<close> (below the number of panels),
  \<open>setActive i\<close> leaves exactly one panel with the active marker, the one at position \<open>i\<close>,
  with \<open>aria-hidden = "false"\<close>, and every other panel with \<open>aria-hidden = "true"\<close>; the
  current index is \<open>i\<close>; and the dot at position \<open>j\<close> carries the active marker exactly
  when \<open>j = i\<close>. So exactly one dot is active, the one at position \<open>i\<close>, when the page has
  a dot at that position (as it has whenever the dots mirror the panels one to one),
  and no dot is active when it has not.
\<close>

theorem setActive_valid_index:
  assumes "i < length (slides s)"
  shows "length (filter is_active (slides (setActive (JInt (int i)) s))) = 1
    \<and> (\<forall>j < length (slides s).
          is_active (slides (setActive (JInt (int i)) s) ! j) = (j = i)
        \<and> getAttribute ''aria-hidden'' (slides (setActive (JInt (int i)) s) ! j)
            = Some (if j = i then ''false'' else ''true''))
    \<and> (\<forall>j < length (dots s). is_active (dots (setActive (JInt (int i)) s) ! j) = (j = i))
    \<and> (i < length (dots s)
         \<longrightarrow> length (filter is_active (dots (setActive (JInt (int i)) s))) = 1)
    \<and> (length (dots s) \<le> i
         \<longrightarrow> filter is_active (dots (setActive (JInt (int i)) s)) = [])
    \<and> current (setActive (JInt (int i)) s) = JInt (int i)"
proof -
  let ?s' = "setActive (JInt (int i)) s"
  have panels: "\<And>j. j < length (slides ?s') \<Longrightarrow> is_active (slides ?s' ! j) = (j = i)"
    by simp
  have one_panel: "length (filter is_active (slides ?s')) = 1"
    using assms by (intro count_one_at [where i = i] panels) simp_all
  have dts: "\<And>j. j < length (dots ?s') \<Longrightarrow> is_active (dots ?s' ! j) = (j = i)"
    by simp
  have one_dot: "length (filter is_active (dots ?s')) = 1"
    if "i < length (dots s)"
    using that by (intro count_one_at [where i = i] dts) simp_all
  have no_dot: "filter is_active (dots ?s') = []"
    if "length (dots s) \<le> i"
    using that by (intro count_none) simp
  show ?thesis
    using one_panel one_dot no_dot by (simp add: getAttribute_def)
qed

definition slide0 :: element where
  "slide0 = \<lparr>classList = [''slide'', ''active''], attrs = Map.empty, hidden = False\<rparr>"

definition slide1 :: element where
  "slide1 = \<lparr>classList = [''slide''], attrs = Map.empty, hidden = False\<rparr>"

definition dot0 :: element where
  "dot0 = \<lparr>classList = [''dot'', ''active''], attrs = Map.empty, hidden = False\<rparr>"

definition dot1 :: element where
  "dot1 = \<lparr>classList = [''dot''], attrs = Map.empty, hidden = False\<rparr>"

text \<open>A page with three panels, the first one marked active, and three dots.\<close>

definition page3 :: slider where
  "page3 = \<lparr>slides = [slide0, slide1, slide1], dots = [dot0, dot1, dot1],
            current = JInt 0, isPaused = False, startX = 0, startTime = 0\<rparr>"

text \<open>The same three panels on a page with a single dot, and on a page with no dot.\<close>

definition page3_one_dot :: slider where
  "page3_one_dot = \<lparr>slides = [slide0, slide1, slide1], dots = [dot0],
            current = JInt 0, isPaused = False, startX = 0, startTime = 0\<rparr>"

definition page3_no_dots :: slider where
  "page3_no_dots = \<lparr>slides = [slide0, slide1, slide1], dots = [],
            current = JInt 0, isPaused = False, startX = 0, startTime = 0\<rparr>"

theorem setActive_valid_index_witness:
  "(2::nat) < length (slides page3)
   \<and> length (filter is_active (slides (setActive (JInt (int 2)) page3))) = 1
   \<and> length (filter is_active (dots (setActive (JInt (int 2)) page3))) = 1
   \<and> is_active (slides (setActive (JInt (int 2)) page3) ! 2)
   \<and> \<not> is_active (slides (setActive (JInt (int 2)) page3) ! 0)
   \<and> getAttribute ''aria-hidden'' (slides (setActive (JInt (int 2)) page3) ! 0) = Some ''true''
   \<and> current (setActive (JInt (int 2)) page3) = JInt 2
   \<and> (2::nat) < length (slides page3_one_dot)
   \<and> length (filter is_active (slides (setActive (JInt (int 2)) page3_one_dot))) = 1
   \<and> filter is_active (dots (setActive (JInt (int 2)) page3_one_dot)) = []"
proof -
  have len: "(2::nat) < length (slides page3)" "(2::nat) < length (dots page3)"
    "(0::nat) < length (slides page3)"
    by (simp_all add: page3_def)
  have len1: "(2::nat) < length (slides page3_one_dot)" "length (dots page3_one_dot) \<le> 2"
    by (simp_all add: page3_one_dot_def)
  from setActive_valid_index [OF len(1)] setActive_valid_index [OF len1(1)] len len1
  show ?thesis
    by simp
qed

text \<open>
  The claim as written has exactly one active dot at every valid index. The dots are
  collected on their own (\<^verbatim>\<open>querySelectorAll('.dot')\<close>) and nothing ties their number to
  the number of panels: with three panels and one dot, or no dot at all, \<open>setActive(2)\<close>
  activates panel 2 and leaves no dot active.
\<close>

theorem setActive_fewer_dots_counterexample:
  "(2::nat) < length (slides page3_one_dot)
   \<and> is_active (slides (setActive (JInt 2) page3_one_dot) ! 2)
   \<and> length (filter is_active (dots (setActive (JInt 2) page3_one_dot))) = 0
   \<and> (2::nat) < length (slides page3_no_dots)
   \<and> is_active (slides (setActive (JInt 2) page3_no_dots) ! 2)
   \<and> length (filter is_active (dots (setActive (JInt 2) page3_no_dots))) = 0"
proof -
  have a: "filter is_active (dots (setActive (JInt 2) page3_one_dot)) = []"
    by (rule dots_inactive_out_of_range) (simp add: page3_one_dot_def)
  have b: "filter is_active (dots (setActive (JInt 2) page3_no_dots)) = []"
    by (rule dots_inactive_out_of_range) (simp add: page3_no_dots_def)
  have c: "(2::nat) < length (slides page3_one_dot)" "(2::nat) < length (slides page3_no_dots)"
    by (simp_all add: page3_one_dot_def page3_no_dots_def)
  have d: "is_active (slides (setActive (JInt 2) s) ! 2)" if "(2::nat) < length (slides s)" for s
    using that by simp
  from a b c d [OF c(1)] d [OF c(2)] show ?thesis
    by simp
qed

section \<open>Initialisation of the slider\<close>

text \<open>
  Lines 55 and 127: \<^verbatim>\<open>let current = slides.findIndex(s => s.classList.contains('active')) || 0\<close>
  and then \<^verbatim>\<open>setActive(current)\<close>. The other closure variables start as the source
  initialises them.
\<close>

definition initSlider :: "element list \<Rightarrow> element list \<Rightarrow> slider" where
  "initSlider sl ds =
     (let s0 = \<lparr>slides = sl, dots = ds, current = js_or0 (findIndex is_active sl),
                isPaused = False, startX = 0, startTime = 0\<rparr>
      in setActive (current s0) s0)"

lemma findIndexFrom_none:
  "\<forall>x \<in> set xs. \<not> P x \<Longrightarrow> findIndexFrom P i xs = JInt (- 1)"
  by (induction xs arbitrary: i) auto

lemma initSlider_none_active:
  "\<forall>x \<in> set sl. \<not> is_active x \<Longrightarrow> current (initSlider sl ds) = JInt (- 1)"
  by (simp add: initSlider_def Let_def findIndex_def findIndexFrom_none js_or0_def)

text \<open>
  Claim C3 (the code departs from it). The claim has the initial index default to 0 when
  no panel carries the active marker, so that initialisation ends with panel 0 active.
  The source writes the default as \<^verbatim>\<open>|| 0\<close>, but \<^verbatim>\<open>findIndex\<close> answers \<^verbatim>\<open>-1\<close> when it finds
  nothing, and \<^verbatim>\<open>-1\<close> is truthy: on two panels of which none is marked, the current index
  is \<^verbatim>\<open>-1\<close> after initialisation and no panel is active, panel 0 included.
\<close>

theorem init_no_active_panel:
  "current (initSlider [slide1, slide1] [dot1, dot1]) = JInt (- 1)
   \<and> filter is_active (slides (initSlider [slide1, slide1] [dot1, dot1])) = []
   \<and> \<not> is_active (slides (initSlider [slide1, slide1] [dot1, dot1]) ! 0)
   \<and> getAttribute ''aria-hidden'' (slides (initSlider [slide1, slide1] [dot1, dot1]) ! 0)
       = Some ''true''"
  by (simp add: initSlider_def Let_def findIndex_def js_or0_def slide1_def dot1_def
      setActive_def markSlide_def markDot_def classList_contains_def classList_remove_def
      classList_toggle_def setAttribute_def getAttribute_def enumerate_eq_zip upt_rec)

section \<open>Indices out of range\<close>

lemma double_round_exact [simp]:
  "\<bar>x\<bar> \<le> 9007199254740992 \<Longrightarrow> double_round x = JInt x"
  by (simp add: double_round_def)

lemma js_rem_zero [simp]: "js_rem x (JInt 0) = JNaN"
  by (cases x) simp_all

lemma js_rem_neg:
  "a < 0 \<Longrightarrow> 0 < b \<Longrightarrow> js_rem (JInt a) (JInt b) = JInt (- ((- a) mod b))"
  by simp

lemma js_rem_nonneg:
  "0 \<le> a \<Longrightarrow> 0 < b \<Longrightarrow> js_rem (JInt a) (JInt b) = JInt (a mod b)"
  by (cases "a = 0") simp_all

lemma nextSlide_from:
  assumes "current s = JInt c" and "- 1 \<le> c" and "c < 9007199254740992"
    and "0 < length (slides s)"
  shows "nextSlide s = setActive (JInt ((c + 1) mod int (length (slides s)))) s"
  using assms by (simp add: nextSlide_def js_rem_nonneg del: js_rem.simps)

lemma nextSlide_from_negative:
  assumes "current s = JInt c" and "- 9007199254740992 \<le> c" and "c < - 1"
    and "0 < length (slides s)"
  shows "nextSlide s = setActive (JInt (- ((- (c + 1)) mod int (length (slides s))))) s"
  using assms by (simp add: nextSlide_def js_rem_neg del: js_rem.simps)

subsection \<open>The exceptions of the DOM operations\<close>

text \<open>
  \<open>setActive\<close> has no \<^verbatim>\<open>throw\<close> of its own and reads no element by index; what can raise
  in it are the DOM operations it calls. \<^verbatim>\<open>classList.add\<close>, \<^verbatim>\<open>remove\<close> and \<^verbatim>\<open>toggle\<close> raise
  \<^verbatim>\<open>SyntaxError\<close> for the empty token and \<^verbatim>\<open>InvalidCharacterError\<close> for a token with ASCII
  white space; \<^verbatim>\<open>setAttribute\<close> raises \<^verbatim>\<open>InvalidCharacterError\<close> for a name that is empty or
  has ASCII white space, NUL, \<^verbatim>\<open>/\<close>, \<^verbatim>\<open>=\<close> or \<^verbatim>\<open>>\<close>. The checked operations return the
  exception as a value, \<open>forEach_checked\<close> stops at the first one as the exception that
  leaves \<^verbatim>\<open>forEach\<close> does, and \<open>setActive_checked\<close> is \<open>setActive\<close> written with them.
\<close>

datatype dom_error = SyntaxError | InvalidCharacterError

definition ascii_whitespace :: "char \<Rightarrow> bool" where
  "ascii_whitespace ch = (of_char ch \<in> {9, 10, 12, 13, 32 :: nat})"

definition token_error :: "string \<Rightarrow> dom_error option" where
  "token_error c =
     (if c = [] then Some SyntaxError
      else if list_ex ascii_whitespace c then Some InvalidCharacterError
      else None)"

definition name_error :: "string \<Rightarrow> dom_error option" where
  "name_error k =
     (if k = [] \<or> list_ex (\<lambda>ch. ascii_whitespace ch \<or> of_char ch \<in> {0, 47, 61, 62 :: nat}) k
      then Some InvalidCharacterError
      else None)"

definition classList_add_checked :: "string \<Rightarrow> element \<Rightarrow> dom_error + element" where
  "classList_add_checked c e =
     (case token_error c of Some err \<Rightarrow> Inl err | None \<Rightarrow> Inr (classList_add c e))"

definition classList_remove_checked :: "string \<Rightarrow> element \<Rightarrow> dom_error + element" where
  "classList_remove_checked c e =
     (case token_error c of Some err \<Rightarrow> Inl err | None \<Rightarrow> Inr (classList_remove c e))"

definition classList_toggle_checked :: "string \<Rightarrow> bool \<Rightarrow> element \<Rightarrow> dom_error + element" where
  "classList_toggle_checked c force e =
     (case token_error c of Some err \<Rightarrow> Inl err | None \<Rightarrow> Inr (classList_toggle c force e))"

definition setAttribute_checked :: "string \<Rightarrow> string \<Rightarrow> element \<Rightarrow> dom_error + element" where
  "setAttribute_checked k v e =
     (case name_error k of Some err \<Rightarrow> Inl err | None \<Rightarrow> Inr (setAttribute k v e))"

fun forEach_checked ::
  "(nat \<Rightarrow> 'a \<Rightarrow> dom_error + 'a) \<Rightarrow> nat \<Rightarrow> 'a list \<Rightarrow> dom_error + 'a list" where
  "forEach_checked f i [] = Inr []"
| "forEach_checked f i (x # xs) =
     (case f i x of
        Inl err \<Rightarrow> Inl err
      | Inr y \<Rightarrow> (case forEach_checked f (Suc i) xs of
                    Inl err \<Rightarrow> Inl err
                  | Inr ys \<Rightarrow> Inr (y # ys)))"

definition markSlide_checked :: "jsnum \<Rightarrow> nat \<Rightarrow> element \<Rightarrow> dom_error + element" where
  "markSlide_checked index i s =
     (if JInt (int i) = index
      then (case classList_add_checked ''active'' s of
              Inl err \<Rightarrow> Inl err
            | Inr s' \<Rightarrow> setAttribute_checked ''aria-hidden'' ''false'' s')
      else (case classList_remove_checked ''active'' s of
              Inl err \<Rightarrow> Inl err
            | Inr s' \<Rightarrow> setAttribute_checked ''aria-hidden'' ''true'' s'))"

definition markDot_checked :: "jsnum \<Rightarrow> nat \<Rightarrow> element \<Rightarrow> dom_error + element" where
  "markDot_checked index i d = classList_toggle_checked ''active'' (JInt (int i) = index) d"

definition setActive_checked :: "jsnum \<Rightarrow> slider \<Rightarrow> dom_error + slider" where
  "setActive_checked index s =
     (case forEach_checked (markSlide_checked index) 0 (slides s) of
        Inl err \<Rightarrow> Inl err
      | Inr sl \<Rightarrow>
          (case forEach_checked (markDot_checked index) 0 (dots s) of
             Inl err \<Rightarrow> Inl err
           | Inr ds \<Rightarrow> Inr (s\<lparr>slides := sl, dots := ds, current := index\<rparr>)))"

lemma token_active: "token_error ''active'' = None"
  by (simp add: token_error_def ascii_whitespace_def)

lemma name_aria_hidden: "name_error ''aria-hidden'' = None"
  by (simp add: name_error_def ascii_whitespace_def)

lemma markSlide_checked_ok: "markSlide_checked index i e = Inr (markSlide index i e)"
  by (simp add: markSlide_checked_def markSlide_def classList_add_checked_def
      classList_remove_checked_def setAttribute_checked_def token_active name_aria_hidden)

lemma markDot_checked_ok: "markDot_checked index i e = Inr (markDot index i e)"
  by (simp add: markDot_checked_def markDot_def classList_toggle_checked_def token_active)

lemma forEach_checked_ok:
  assumes "\<And>j x. f j x = Inr (g j x)"
  shows "forEach_checked f i xs = Inr (map (\<lambda>(j, x). g j x) (enumerate i xs))"
  by (induction xs arbitrary: i) (simp_all add: assms)

lemma setActive_checked_ok: "setActive_checked index s = Inr (setActive index s)"
  by (simp add: setActive_checked_def setActive_def
      forEach_checked_ok [where g = "markSlide index", OF markSlide_checked_ok]
      forEach_checked_ok [where g = "markDot index", OF markDot_checked_ok])

text \<open>
  Claim C10 (as amended). For every integer \<open>i\<close> outside the range of the panels,
  \<open>setActive i\<close> raises no exception, leaves every panel without the active marker and
  with \<open>aria-hidden = "true"\<close>, leaves the dot at position \<open>j\<close> with the marker exactly when
  \<open>j = i\<close> (so every dot without it when \<open>i\<close> is outside the range of the dots as well),
  and sets the current index to \<open>i\<close>. On a slider with at least one panel, the next call
  of \<open>next()\<close> activates exactly the panel at \<open>(i + 1) mod\<close> the panel count when
  \<open>-1 \<le> i < 2^53\<close>; when \<open>-2^53 \<le> i < -1\<close> it passes the truncated remainder
  \<open>- ((- (i + 1)) mod\<close> the panel count\<open>)\<close> to \<open>setActive\<close>, which is never positive, so that
  a panel is activated only if that remainder is 0, and then it is panel 0.
\<close>

theorem setActive_out_of_range:
  assumes "i < 0 \<or> int (length (slides s)) \<le> i"
  shows "setActive_checked (JInt i) s = Inr (setActive (JInt i) s)
    \<and> filter is_active (slides (setActive (JInt i) s)) = []
    \<and> (\<forall>j < length (slides s).
          getAttribute ''aria-hidden'' (slides (setActive (JInt i) s) ! j) = Some ''true'')
    \<and> (\<forall>j < length (dots s). is_active (dots (setActive (JInt i) s) ! j) = (int j = i))
    \<and> (i < 0 \<or> int (length (dots s)) \<le> i
         \<longrightarrow> filter is_active (dots (setActive (JInt i) s)) = [])
    \<and> current (setActive (JInt i) s) = JInt i
    \<and> (- 1 \<le> i \<and> i < 9007199254740992 \<and> 0 < length (slides s) \<longrightarrow>
          current (nextSlide (setActive (JInt i) s))
            = JInt ((i + 1) mod int (length (slides s)))
        \<and> (\<forall>j < length (slides s).
              is_active (slides (nextSlide (setActive (JInt i) s)) ! j)
                = (int j = (i + 1) mod int (length (slides s)))))
    \<and> (- 9007199254740992 \<le> i \<and> i < - 1 \<and> 0 < length (slides s) \<longrightarrow>
          current (nextSlide (setActive (JInt i) s))
            = JInt (- ((- (i + 1)) mod int (length (slides s))))
        \<and> - ((- (i + 1)) mod int (length (slides s))) \<le> 0
        \<and> (\<forall>j < length (slides s).
              is_active (slides (nextSlide (setActive (JInt i) s)) ! j)
                = (j = 0 \<and> (- (i + 1)) mod int (length (slides s)) = 0)))"
proof -
  let ?s' = "setActive (JInt i) s"
  let ?n = "int (length (slides s))"
  have hid: "\<forall>j < length (slides s). getAttribute ''aria-hidden'' (slides ?s' ! j) = Some ''true''"
    using assms by (auto simp: getAttribute_def)
  have dot: "\<forall>j < length (dots s). is_active (dots ?s' ! j) = (int j = i)"
    by simp
  have dts: "filter is_active (dots ?s') = []" if "i < 0 \<or> int (length (dots s)) \<le> i"
    using that by (intro dots_inactive_out_of_range)
  have nxt: "current (nextSlide ?s') = JInt ((i + 1) mod ?n)
      \<and> (\<forall>j < length (slides s). is_active (slides (nextSlide ?s') ! j)
            = (int j = (i + 1) mod ?n))"
    if "- 1 \<le> i \<and> i < 9007199254740992 \<and> 0 < length (slides s)"
  proof -
    have "nextSlide ?s' = setActive (JInt ((i + 1) mod int (length (slides ?s')))) ?s'"
      using that by (intro nextSlide_from) simp_all
    then show ?thesis by simp
  qed
  have neg: "current (nextSlide ?s') = JInt (- ((- (i + 1)) mod ?n))
      \<and> - ((- (i + 1)) mod ?n) \<le> 0
      \<and> (\<forall>j < length (slides s). is_active (slides (nextSlide ?s') ! j)
            = (j = 0 \<and> (- (i + 1)) mod ?n = 0))"
    if "- 9007199254740992 \<le> i \<and> i < - 1 \<and> 0 < length (slides s)"
  proof -
    have "nextSlide ?s' = setActive (JInt (- ((- (i + 1)) mod int (length (slides ?s'))))) ?s'"
      using that by (intro nextSlide_from_negative) simp_all
    moreover have "0 \<le> (- (i + 1)) mod ?n"
      using that by simp
    moreover have "(int j = - ((- (i + 1)) mod ?n)) = (j = 0 \<and> (- (i + 1)) mod ?n = 0)" for j
      using \<open>0 \<le> (- (i + 1)) mod ?n\<close> by auto
    ultimately show ?thesis by simp
  qed
  show ?thesis
    using slides_inactive_out_of_range [OF assms] hid dot dts nxt neg
    by (simp add: setActive_checked_ok)
qed

text \<open>A page with two panels and three dots.\<close>

definition page2_three_dots :: slider where
  "page2_three_dots = \<lparr>slides = [slide0, slide1], dots = [dot0, dot1, dot1],
            current = JInt 0, isPaused = False, startX = 0, startTime = 0\<rparr>"

theorem setActive_out_of_range_witness:
  "setActive_checked (JInt (- 1)) page3 = Inr (setActive (JInt (- 1)) page3)
   \<and> filter is_active (slides (setActive (JInt (- 1)) page3)) = []
   \<and> filter is_active (dots (setActive (JInt (- 1)) page3)) = []
   \<and> getAttribute ''aria-hidden'' (slides (setActive (JInt (- 1)) page3) ! 0) = Some ''true''
   \<and> current (setActive (JInt (- 1)) page3) = JInt (- 1)
   \<and> current (nextSlide (setActive (JInt (- 1)) page3)) = JInt 0
   \<and> is_active (slides (nextSlide (setActive (JInt (- 1)) page3)) ! 0)
   \<and> \<not> is_active (slides (nextSlide (setActive (JInt (- 1)) page3)) ! 1)
   \<and> current (nextSlide (setActive (JInt (- 4)) page3)) = JInt 0
   \<and> is_active (slides (nextSlide (setActive (JInt (- 4)) page3)) ! 0)
   \<and> current (nextSlide (setActive (JInt (- 3)) page3)) = JInt (- 2)
   \<and> \<not> is_active (slides (nextSlide (setActive (JInt (- 3)) page3)) ! 0)"
proof -
  have len: "length (slides page3) = 3" "length (dots page3) = 3"
    by (simp_all add: page3_def)
  have a: "(- 1 :: int) < 0 \<or> int (length (slides page3)) \<le> - 1"
    and b: "(- 4 :: int) < 0 \<or> int (length (slides page3)) \<le> - 4"
    and c: "(- 3 :: int) < 0 \<or> int (length (slides page3)) \<le> - 3"
    by simp_all
  from setActive_out_of_range [OF a] setActive_out_of_range [OF b]
    setActive_out_of_range [OF c] len
  show ?thesis
    by simp
qed

lemma add_one_rounds: "js_add (JInt 9007199254740992) (JInt 1) = JInt 9007199254740992"
  by (simp add: double_round_def bitlen.simps Let_def)

text \<open>
  The claim as written fails in three ways. Below \<open>-1\<close>: with three panels, after
  \<open>setActive(-3)\<close> the call \<open>next()\<close> computes \<^verbatim>\<open>(-3 + 1) % 3\<close>, which is \<open>-2\<close> in JavaScript,
  and activates no panel, where \<open>(-3 + 1) mod 3\<close> is 1. From \<open>2^53\<close> on: after
  \<open>setActive(2^53)\<close> the sum \<^verbatim>\<open>current + 1\<close> is rounded to \<open>2^53\<close> again, and \<open>next()\<close> activates
  panel \<^verbatim>\<open>2^53 % 3\<close>, which is 2, where \<open>(2^53 + 1) mod 3\<close> is 0. And with more dots than
  panels: on two panels and three dots \<open>setActive(2)\<close>, out of the range of the panels,
  marks the dot at position 2 active.
\<close>

theorem next_after_negative_index_counterexample:
  "current (nextSlide (setActive (JInt (- 3)) page3)) = JInt (- 2)
   \<and> filter is_active (slides (nextSlide (setActive (JInt (- 3)) page3))) = []
   \<and> \<not> is_active (slides (nextSlide (setActive (JInt (- 3)) page3)) ! 1)
   \<and> (- 3 + 1) mod 3 = (1 :: int)
   \<and> current (nextSlide (setActive (JInt 9007199254740992) page3)) = JInt 2
   \<and> is_active (slides (nextSlide (setActive (JInt 9007199254740992) page3)) ! 2)
   \<and> \<not> is_active (slides (nextSlide (setActive (JInt 9007199254740992) page3)) ! 0)
   \<and> (9007199254740992 + 1) mod 3 = (0 :: int)
   \<and> int (length (slides page2_three_dots)) \<le> 2
   \<and> is_active (dots (setActive (JInt 2) page2_three_dots) ! 2)"
proof -
  have len: "length (slides page3) = 3"
    by (simp add: page3_def)
  have cur: "nextSlide (setActive (JInt (- 3)) page3)
      = setActive (JInt (- 2)) (setActive (JInt (- 3)) page3)"
    using len by (simp add: nextSlide_def)
  have out: "(- 2 :: int) < 0 \<or> int (length (slides (setActive (JInt (- 3)) page3))) \<le> - 2"
    by simp
  have big: "nextSlide (setActive (JInt 9007199254740992) page3)
      = setActive (JInt 2) (setActive (JInt 9007199254740992) page3)"
    using len by (simp add: nextSlide_def add_one_rounds del: js_add.simps)
  have two: "length (slides page2_three_dots) = 2" "length (dots page2_three_dots) = 3"
    by (simp_all add: page2_three_dots_def)
  show ?thesis
    using slides_inactive_out_of_range [OF out] len two
    by (simp add: cur big)
qed

section \<open>Autoplay, hover and touch\<close>

text \<open>
  The interval callback of \<^verbatim>\<open>startAuto\<close> is \<^verbatim>\<open>if (!isPaused) next()\<close>; the hover handlers
  set and clear \<^verbatim>\<open>isPaused\<close>. The touch handlers record the start of a gesture and, at its
  end, call \<^verbatim>\<open>next()\<close> or \<^verbatim>\<open>prev()\<close> at most once: \<open>swipe\<close> is the list of the calls made,
  \<open>touchend\<close> makes them and clears \<^verbatim>\<open>isPaused\<close>.
\<close>

datatype nav = Next | Prev

fun run_nav :: "nav \<Rightarrow> slider \<Rightarrow> slider" where
  "run_nav Next s = nextSlide s"
| "run_nav Prev s = prevSlide s"

definition autoTick :: "slider \<Rightarrow> slider" where
  "autoTick s = (if \<not> isPaused s then nextSlide s else s)"

definition mouseenter :: "slider \<Rightarrow> slider" where
  "mouseenter s = s\<lparr>isPaused := True\<rparr>"

definition mouseleave :: "slider \<Rightarrow> slider" where
  "mouseleave s = s\<lparr>isPaused := False\<rparr>"

definition touchstart :: "int \<Rightarrow> int \<Rightarrow> slider \<Rightarrow> slider" where
  "touchstart x now s = s\<lparr>startX := x, startTime := now, isPaused := True\<rparr>"

definition swipe :: "int \<Rightarrow> int \<Rightarrow> nav list" where
  "swipe dx dt = (if \<bar>dx\<bar> > 40 \<and> dt < 1000 then (if dx < 0 then [Next] else [Prev]) else [])"

definition touchend :: "int \<Rightarrow> int \<Rightarrow> slider \<Rightarrow> slider" where
  "touchend x now s =
     (let dx = x - startX s; dt = now - startTime s
      in (fold run_nav (swipe dx dt) s)\<lparr>isPaused := False\<rparr>)"

lemma js_rem_cong:
  fixes a b :: int
  assumes "0 < b"
  shows "(sgn a * (\<bar>a\<bar> mod \<bar>b\<bar>) - a) mod b = 0"
proof (cases "0 \<le> a")
  case True
  then have "sgn a * (\<bar>a\<bar> mod \<bar>b\<bar>) = a mod b"
    using assms by (cases "a = 0") simp_all
  then show ?thesis by (simp add: mod_diff_left_eq)
next
  case False
  then have "sgn a * (\<bar>a\<bar> mod \<bar>b\<bar>) - a = b * ((- a) div b)"
    using assms by (simp add: minus_mod_eq_mult_div [symmetric])
  then show ?thesis by simp
qed

lemma nextSlide_congruent:
  assumes "current s = JInt c" and "- 9007199254740992 \<le> c" and "c < 9007199254740992"
    and "0 < length (slides s)"
  shows "\<exists>c'. current (nextSlide s) = JInt c' \<and> (c' - (c + 1)) mod int (length (slides s)) = 0"
  using assms js_rem_cong [of "int (length (slides s))" "c + 1"]
  by (simp add: nextSlide_def)

lemma autoTick_advance:
  assumes "\<not> isPaused s" and "current s = JInt c" and "- 1 \<le> c" and "c < 9007199254740992"
    and "0 < length (slides s)"
  shows "current (autoTick s) = JInt ((c + 1) mod int (length (slides s)))
      \<and> (\<forall>j < length (slides s).
            is_active (slides (autoTick s) ! j) = (int j = (c + 1) mod int (length (slides s))))"
  using assms by (simp add: autoTick_def nextSlide_from)

lemma slides_inactive_NaN: "filter is_active (slides (setActive JNaN s)) = []"
  by (rule count_none) simp

lemma nextSlide_NaN:
  assumes "length (slides s) = 0 \<or> current s \<in> {JNaN, JInf, JNegInf}"
  shows "nextSlide s = setActive JNaN s"
  using assms by (auto simp: nextSlide_def)

text \<open>
  Claim C7 (as amended). While the paused flag is true, a timer tick changes nothing of
  the slider, in every state. Once the flag is false (after \<open>mouseleave\<close>, say), a tick on
  a slider with at least one panel and an integer current index \<open>c\<close>,
  \<open>-2^53 \<le> c < 2^53\<close>, moves the index to a position congruent to \<open>c + 1\<close> modulo the
  panel count; from every such \<open>c\<close> of at least \<open>-1\<close>, which covers the valid indices, the
  new index is \<open>(c + 1) mod\<close> the panel count and exactly that panel is active. A tick on
  a slider with no panel, or with the current index \<^verbatim>\<open>NaN\<close> or infinite, leaves the index
  \<^verbatim>\<open>NaN\<close> and no panel active.
\<close>

theorem autoplay_tick:
  "(isPaused s \<longrightarrow> autoTick s = s)
   \<and> (\<not> isPaused s \<and> current s = JInt c \<and> - 9007199254740992 \<le> c \<and> c < 9007199254740992
        \<and> 0 < length (slides s) \<longrightarrow>
        (\<exists>c'. current (autoTick s) = JInt c'
              \<and> (c' - (c + 1)) mod int (length (slides s)) = 0)
      \<and> (- 1 \<le> c \<longrightarrow>
            current (autoTick s) = JInt ((c + 1) mod int (length (slides s)))
          \<and> (\<forall>j < length (slides s).
                is_active (slides (autoTick s) ! j)
                  = (int j = (c + 1) mod int (length (slides s))))))
   \<and> (\<not> isPaused s \<and> (length (slides s) = 0 \<or> current s \<in> {JNaN, JInf, JNegInf}) \<longrightarrow>
        current (autoTick s) = JNaN \<and> filter is_active (slides (autoTick s)) = [])
   \<and> autoTick (mouseenter s) = mouseenter s
   \<and> (current s = JInt c \<and> - 1 \<le> c \<and> c < 9007199254740992 \<and> 0 < length (slides s) \<longrightarrow>
        current (autoTick (mouseleave s)) = JInt ((c + 1) mod int (length (slides s))))"
proof (intro conjI impI)
  show "autoTick s = s" if "isPaused s"
    using that by (simp add: autoTick_def)
  show "\<exists>c'. current (autoTick s) = JInt c' \<and> (c' - (c + 1)) mod int (length (slides s)) = 0"
    if "\<not> isPaused s \<and> current s = JInt c \<and> - 9007199254740992 \<le> c \<and> c < 9007199254740992
        \<and> 0 < length (slides s)"
    using that nextSlide_congruent [of s c] by (simp add: autoTick_def)
  show "current (autoTick s) = JInt ((c + 1) mod int (length (slides s)))"
    if "\<not> isPaused s \<and> current s = JInt c \<and> - 9007199254740992 \<le> c \<and> c < 9007199254740992
        \<and> 0 < length (slides s)" and "- 1 \<le> c"
    using that autoTick_advance [of s c] by simp
  show "\<forall>j < length (slides s).
          is_active (slides (autoTick s) ! j) = (int j = (c + 1) mod int (length (slides s)))"
    if "\<not> isPaused s \<and> current s = JInt c \<and> - 9007199254740992 \<le> c \<and> c < 9007199254740992
        \<and> 0 < length (slides s)" and "- 1 \<le> c"
    using that autoTick_advance [of s c] by simp
  show "current (autoTick s) = JNaN"
    if "\<not> isPaused s \<and> (length (slides s) = 0 \<or> current s \<in> {JNaN, JInf, JNegInf})"
    using that nextSlide_NaN [of s] by (auto simp: autoTick_def)
  show "filter is_active (slides (autoTick s)) = []"
    if "\<not> isPaused s \<and> (length (slides s) = 0 \<or> current s \<in> {JNaN, JInf, JNegInf})"
    using that nextSlide_NaN [of s] slides_inactive_NaN [of s] by (auto simp: autoTick_def)
  show "autoTick (mouseenter s) = mouseenter s"
    by (simp add: autoTick_def mouseenter_def)
  show "current (autoTick (mouseleave s)) = JInt ((c + 1) mod int (length (slides s)))"
    if "current s = JInt c \<and> - 1 \<le> c \<and> c < 9007199254740992 \<and> 0 < length (slides s)"
    using that autoTick_advance [of "mouseleave s" c] by (simp add: mouseleave_def)
qed

definition paused3 :: slider where
  "paused3 = page3\<lparr>current := JInt 2, isPaused := True\<rparr>"

theorem autoplay_tick_witness:
  "isPaused paused3 \<and> autoTick paused3 = paused3
   \<and> \<not> isPaused page3 \<and> current page3 = JInt 0 \<and> current (autoTick page3) = JInt 1
   \<and> is_active (slides (autoTick page3) ! 1) \<and> \<not> is_active (slides (autoTick page3) ! 0)
   \<and> current paused3 = JInt 2 \<and> current (autoTick (mouseleave paused3)) = JInt 0
   \<and> current (setActive JNaN page3) = JNaN
   \<and> current (autoTick (setActive JNaN page3)) = JNaN"
proof -
  have a: "isPaused paused3" "current paused3 = JInt 2" "length (slides paused3) = 3"
    by (simp_all add: paused3_def page3_def)
  have b: "\<not> isPaused page3" "current page3 = JInt 0" "length (slides page3) = 3"
    by (simp_all add: page3_def)
  have c: "\<not> isPaused (setActive JNaN page3)"
    by (simp add: page3_def)
  from autoplay_tick [of paused3 2] autoplay_tick [of page3 0]
    autoplay_tick [of "setActive JNaN page3" 0] a b c
  show ?thesis
    by simp
qed

text \<open>
  The claim as written has every tick with the flag false advance the index by one
  position. After a click on a dot without a numeric \<^verbatim>\<open>data-to\<close> the index is \<^verbatim>\<open>NaN\<close>, and
  the tick leaves it \<^verbatim>\<open>NaN\<close> with no panel active; on a page without panels the index
  \<open>-1\<close> of initialisation becomes \<^verbatim>\<open>NaN\<close> at the first tick; and from the index \<open>2^53\<close> on
  three panels the tick goes to \<^verbatim>\<open>2^53 % 3\<close>, which is 2, where \<open>(2^53 + 1) mod 3\<close> is 0,
  since \<^verbatim>\<open>2^53 + 1\<close> is rounded to \<open>2^53\<close>.
\<close>

theorem tick_not_advancing_counterexample:
  "\<not> isPaused (setActive JNaN page3)
   \<and> current (autoTick (setActive JNaN page3)) = JNaN
   \<and> filter is_active (slides (autoTick (setActive JNaN page3))) = []
   \<and> \<not> isPaused (initSlider [] [])
   \<and> current (initSlider [] []) = JInt (- 1)
   \<and> current (autoTick (initSlider [] [])) = JNaN
   \<and> \<not> isPaused (setActive (JInt 9007199254740992) page3)
   \<and> current (autoTick (setActive (JInt 9007199254740992) page3)) = JInt 2
   \<and> is_active (slides (autoTick (setActive (JInt 9007199254740992) page3)) ! 2)
   \<and> (9007199254740992 + 1) mod 3 = (0 :: int)"
proof -
  have p: "\<not> isPaused page3" "length (slides page3) = 3"
    by (simp_all add: page3_def)
  have nan: "autoTick (setActive JNaN page3) = setActive JNaN (setActive JNaN page3)"
    using p by (simp add: autoTick_def nextSlide_def)
  have init: "initSlider [] []
      = \<lparr>slides = [], dots = [], current = JInt (- 1), isPaused = False, startX = 0,
         startTime = 0\<rparr>"
    by (simp add: initSlider_def Let_def findIndex_def js_or0_def setActive_def)
  have empty: "autoTick (initSlider [] []) = setActive JNaN (initSlider [] [])"
    unfolding init by (simp add: autoTick_def nextSlide_def)
  have big: "autoTick (setActive (JInt 9007199254740992) page3)
      = setActive (JInt 2) (setActive (JInt 9007199254740992) page3)"
    using p by (simp add: autoTick_def nextSlide_def add_one_rounds del: js_add.simps)
  have e: "current (autoTick (initSlider [] [])) = JNaN"
    by (simp add: empty)
  have i: "\<not> isPaused (initSlider [] [])" "current (initSlider [] []) = JInt (- 1)"
    by (simp_all add: init)
  show ?thesis
    using p e i slides_inactive_NaN [of "setActive JNaN page3"]
    by (simp add: nan big)
qed

text \<open>
  Claim C8. For a gesture from \<open>(x0, t0)\<close> to \<open>(x1, t1)\<close>, with \<open>dx = x1 - x0\<close> and
  \<open>dt = t1 - t0\<close>: when \<open>|dx| > 40\<close> and \<open>dt < 1000\<close> the handler makes exactly one call,
  \<open>next()\<close> for a negative \<open>dx\<close> and \<open>prev()\<close> for a positive one; when \<open>|dx| \<le> 40\<close> or
  \<open>dt \<ge> 1000\<close> it makes none and the panels, dots and index stay as they were; the paused
  flag, set at touch start, is cleared at touch end in every case. In particular
  \<open>dx = -50\<close> with \<open>dt = 300\<close> gives one \<open>next()\<close>, and \<open>dx = 20\<close> gives no call.
\<close>

theorem touch_gesture:
  "(40 < \<bar>x1 - x0\<bar> \<and> t1 - t0 < 1000 \<and> x1 - x0 < 0 \<longrightarrow>
        swipe (x1 - x0) (t1 - t0) = [Next]
      \<and> touchend x1 t1 (touchstart x0 t0 s) = (nextSlide (touchstart x0 t0 s))\<lparr>isPaused := False\<rparr>)
   \<and> (40 < \<bar>x1 - x0\<bar> \<and> t1 - t0 < 1000 \<and> 0 < x1 - x0 \<longrightarrow>
        swipe (x1 - x0) (t1 - t0) = [Prev]
      \<and> touchend x1 t1 (touchstart x0 t0 s) = (prevSlide (touchstart x0 t0 s))\<lparr>isPaused := False\<rparr>)
   \<and> (\<bar>x1 - x0\<bar> \<le> 40 \<or> 1000 \<le> t1 - t0 \<longrightarrow>
        swipe (x1 - x0) (t1 - t0) = []
      \<and> touchend x1 t1 (touchstart x0 t0 s) = s\<lparr>startX := x0, startTime := t0, isPaused := False\<rparr>)
   \<and> isPaused (touchstart x0 t0 s)
   \<and> \<not> isPaused (touchend x1 t1 (touchstart x0 t0 s))
   \<and> swipe (- 50) 300 = [Next]
   \<and> swipe 20 dt = []"
  by (auto simp: swipe_def touchend_def touchstart_def Let_def)

theorem touch_gesture_witness:
  "swipe (50 - 100) (1300 - 1000) = [Next]
   \<and> current (touchend 50 1300 (touchstart 100 1000 page3)) = JInt 1
   \<and> swipe (120 - 100) (1300 - 1000) = []
   \<and> current (touchend 120 1300 (touchstart 100 1000 page3)) = JInt 0
   \<and> swipe (200 - 100) (1300 - 1000) = [Prev]
   \<and> current (touchend 200 1300 (touchstart 100 1000 page3)) = JInt 2
   \<and> swipe (50 - 100) (2000 - 1000) = []"
proof -
  have len: "length (slides page3) = 3" "current page3 = JInt 0"
    by (simp_all add: page3_def)
  from touch_gesture [of 50 100 1300 1000 page3] touch_gesture [of 120 100 1300 1000 page3]
    touch_gesture [of 200 100 1300 1000 page3] touch_gesture [of 50 100 2000 1000 page3] len
  show ?thesis
    by (simp add: nextSlide_def prevSlide_def touchstart_def)
qed

section \<open>The accordion\<close>

text \<open>
  An accordion group is the list of its items; an item has a trigger \<^verbatim>\<open>.accordion-btn\<close>
  and a panel \<^verbatim>\<open>.accordion-panel\<close> of its own. Initialisation (lines 138 to 142) draws a
  random string for each item, \<^verbatim>\<open>Math.random().toString(36).slice(2,9)\<close>: the strings
  drawn are a parameter \<open>rnd\<close>. The click handler of item \<open>k\<close> (lines 144 to 158) returns
  the items of the group and the index of the panel it scrolls into view, if any. An
  item is open when its trigger has \<open>aria-expanded = "true"\<close> and its panel is not hidden.
\<close>

record accItem =
  btn :: element
  panel :: element

definition initItem :: "string \<Rightarrow> accItem \<Rightarrow> accItem" where
  "initItem r it =
     (let panelId = ''panel-'' @ r
      in \<lparr>btn = setAttribute ''aria-expanded'' ''false''
                 (setAttribute ''aria-controls'' panelId (btn it)),
          panel = setAttribute ''id'' panelId (panel it)\<rparr>)"

definition initAccordion :: "(nat \<Rightarrow> string) \<Rightarrow> accItem list \<Rightarrow> accItem list" where
  "initAccordion rnd items = map (\<lambda>(idx, it). initItem (rnd idx) it) (enumerate 0 items)"

definition initAccordions :: "(nat \<Rightarrow> nat \<Rightarrow> string) \<Rightarrow> accItem list list \<Rightarrow> accItem list list" where
  "initAccordions rnd acs = map (\<lambda>(g, items). initAccordion (rnd g) items) (enumerate 0 acs)"

definition closeItem :: "accItem \<Rightarrow> accItem" where
  "closeItem it = \<lparr>btn = setAttribute ''aria-expanded'' ''false'' (btn it),
                   panel = (panel it)\<lparr>hidden := True\<rparr>\<rparr>"

definition openItem :: "accItem \<Rightarrow> accItem" where
  "openItem it = \<lparr>btn = setAttribute ''aria-expanded'' ''true'' (btn it),
                  panel = (panel it)\<lparr>hidden := False\<rparr>\<rparr>"

definition click :: "nat \<Rightarrow> accItem list \<Rightarrow> accItem list \<times> nat option" where
  "click k items =
     (if k < length items then
        (let expanded = (getAttribute ''aria-expanded'' (btn (items ! k)) = Some ''true'');
             closed = map closeItem items
         in if \<not> expanded then (closed[k := openItem (closed ! k)], Some k)
            else (closed, None))
      else (items, None))"

definition is_open :: "accItem \<Rightarrow> bool" where
  "is_open it = (getAttribute ''aria-expanded'' (btn it) = Some ''true'' \<and> \<not> hidden (panel it))"

lemma not_open_closeItem [simp]: "\<not> is_open (closeItem it)"
  by (simp add: is_open_def closeItem_def)

lemma is_open_openItem [simp]: "is_open (openItem it)"
  by (simp add: is_open_def openItem_def getAttribute_def)

lemma filter_closed [simp]: "filter is_open (map closeItem items) = []"
  by (simp add: filter_empty_conv)

lemma open_after_click:
  assumes "k < length items" and "getAttribute ''aria-expanded'' (btn (items ! k)) \<noteq> Some ''true''"
    and "j < length items"
  shows "is_open (fst (click k items) ! j) = (j = k)"
  using assms by (simp add: click_def Let_def nth_list_update)

text \<open>
  Claim C2. After the click handler of any item \<open>k\<close> of a group, at most one item of the
  group is open. The handler closes every item, and then opens item \<open>k\<close> exactly when its
  trigger did not have \<open>aria-expanded = "true"\<close>: it then is the one open item; an item
  that was open when activated leaves every item of the group closed. After the
  handler the expanded flag of every trigger agrees with the visibility of its panel.
\<close>

theorem click_single_open:
  assumes "k < length items"
  shows "length (filter is_open (fst (click k items))) \<le> 1
    \<and> length (fst (click k items)) = length items
    \<and> (getAttribute ''aria-expanded'' (btn (items ! k)) = Some ''true'' \<longrightarrow>
          click k items = (map closeItem items, None)
        \<and> filter is_open (fst (click k items)) = [])
    \<and> (getAttribute ''aria-expanded'' (btn (items ! k)) \<noteq> Some ''true'' \<longrightarrow>
          click k items = ((map closeItem items)[k := openItem (closeItem (items ! k))], Some k)
        \<and> (\<forall>j < length items. is_open (fst (click k items) ! j) = (j = k)))
    \<and> (is_open (items ! k) \<longrightarrow> filter is_open (fst (click k items)) = [])
    \<and> (\<forall>j < length items.
          (getAttribute ''aria-expanded'' (btn (fst (click k items) ! j)) = Some ''true'')
            = (\<not> hidden (panel (fst (click k items) ! j))))"
proof (cases "getAttribute ''aria-expanded'' (btn (items ! k)) = Some ''true''")
  case True
  with assms have "click k items = (map closeItem items, None)"
    by (simp add: click_def)
  with True show ?thesis
    by (simp add: closeItem_def getAttribute_def)
next
  case False
  with assms have c: "click k items
      = ((map closeItem items)[k := openItem (closeItem (items ! k))], Some k)"
    by (simp add: click_def Let_def)
  have len: "length (fst (click k items)) = length items"
    using c by simp
  have op: "\<And>j. j < length (fst (click k items)) \<Longrightarrow> is_open (fst (click k items) ! j) = (j = k)"
    using open_after_click [OF assms False] len by simp
  have one: "length (filter is_open (fst (click k items))) = 1"
    using assms len by (intro count_one_at [where i = k] op) simp_all
  have sync: "(getAttribute ''aria-expanded'' (btn (fst (click k items) ! j)) = Some ''true'')
      = (\<not> hidden (panel (fst (click k items) ! j)))" if "j < length items" for j
    using that c assms
    by (cases "j = k") (simp_all add: closeItem_def openItem_def getAttribute_def)
  from one sync False c len op show ?thesis
    by (simp add: is_open_def)
qed


definition btn0 :: element where
  "btn0 = \<lparr>classList = [''accordion-btn''], attrs = Map.empty, hidden = False\<rparr>"

definition panel_shown :: element where
  "panel_shown = \<lparr>classList = [''accordion-panel''], attrs = Map.empty, hidden = False\<rparr>"

definition panel_hidden :: element where
  "panel_hidden = \<lparr>classList = [''accordion-panel''], attrs = Map.empty, hidden = True\<rparr>"

definition item_open :: accItem where
  "item_open = \<lparr>btn = setAttribute ''aria-expanded'' ''true'' btn0, panel = panel_shown\<rparr>"

definition item_closed :: accItem where
  "item_closed = \<lparr>btn = setAttribute ''aria-expanded'' ''false'' btn0, panel = panel_hidden\<rparr>"

definition item_markup_shown :: accItem where
  "item_markup_shown = \<lparr>btn = btn0, panel = panel_shown\<rparr>"

definition rnd0 :: "nat \<Rightarrow> nat \<Rightarrow> string" where
  "rnd0 g idx = ''k3f9x2a''"

theorem click_single_open_witness:
  "(0::nat) < length [item_open, item_closed, item_closed]
   \<and> is_open ([item_open, item_closed, item_closed] ! 0)
   \<and> click 0 [item_open, item_closed, item_closed]
       = (map closeItem [item_open, item_closed, item_closed], None)
   \<and> filter is_open (fst (click 0 [item_open, item_closed, item_closed])) = []
   \<and> is_open (fst (click 1 [item_open, item_closed, item_closed]) ! 1)
   \<and> \<not> is_open (fst (click 1 [item_open, item_closed, item_closed]) ! 0)
   \<and> length (filter is_open (fst (click 1 [item_open, item_closed, item_closed]))) \<le> 1
   \<and> snd (click 1 [item_open, item_closed, item_closed]) = Some 1"
proof -
  let ?items = "[item_open, item_closed, item_closed]"
  have k: "(0::nat) < length ?items" "(1::nat) < length ?items"
    by simp_all
  have a: "getAttribute ''aria-expanded'' (btn (?items ! 0)) = Some ''true''"
    "getAttribute ''aria-expanded'' (btn (?items ! 1)) \<noteq> Some ''true''"
    "is_open (?items ! 0)"
    by (simp_all add: item_open_def item_closed_def getAttribute_def setAttribute_def
        is_open_def panel_shown_def)
  from click_single_open [OF k(1)] click_single_open [OF k(2)] a show ?thesis
    by simp
qed

lemma initItem_flags:
  "getAttribute ''aria-expanded'' (btn (initItem r it)) = Some ''false''
   \<and> getAttribute ''aria-controls'' (btn (initItem r it)) = Some (''panel-'' @ r)
   \<and> getAttribute ''id'' (panel (initItem r it)) = Some (''panel-'' @ r)
   \<and> hidden (panel (initItem r it)) = hidden (panel it)
   \<and> \<not> is_open (initItem r it)"
  by (simp add: initItem_def Let_def getAttribute_def setAttribute_def is_open_def)

lemma nth_initAccordion:
  "j < length items \<Longrightarrow> initAccordion rnd items ! j = initItem (rnd j) (items ! j)"
  by (simp add: initAccordion_def nth_enumerate_eq)

lemma nth_initAccordions:
  "g < length acs \<Longrightarrow> initAccordions rnd acs ! g = initAccordion (rnd g) (acs ! g)"
  by (simp add: initAccordions_def nth_enumerate_eq)

text \<open>
  Claim C9 (as amended). After initialisation, in every group every trigger has
  \<open>aria-expanded = "false"\<close> and \<open>aria-controls\<close> naming the identifier given to its panel,
  so no item is open; initialisation leaves the \<open>hidden\<close> property of every panel as
  the markup had it, so a panel is hidden exactly when the markup hid it.
\<close>

theorem initAccordions_flags:
  "\<forall>g < length acs. \<forall>j < length (acs ! g).
      getAttribute ''aria-expanded'' (btn (initAccordions rnd acs ! g ! j)) = Some ''false''
    \<and> getAttribute ''aria-controls'' (btn (initAccordions rnd acs ! g ! j))
        = getAttribute ''id'' (panel (initAccordions rnd acs ! g ! j))
    \<and> hidden (panel (initAccordions rnd acs ! g ! j)) = hidden (panel (acs ! g ! j))
    \<and> \<not> is_open (initAccordions rnd acs ! g ! j)"
  by (simp add: nth_initAccordions nth_initAccordion initItem_flags)

theorem initAccordions_flags_witness:
  "getAttribute ''aria-expanded''
      (btn (initAccordions rnd0 [[item_open, item_markup_shown]] ! 0 ! 0)) = Some ''false''
   \<and> hidden (panel (initAccordions rnd0 [[item_closed, item_markup_shown]] ! 0 ! 0))
   \<and> \<not> is_open (initAccordions rnd0 [[item_open, item_markup_shown]] ! 0 ! 0)"
proof -
  have h: "hidden (panel ([[item_closed, item_markup_shown]] ! 0 ! 0))"
    by (simp add: item_closed_def panel_hidden_def)
  from initAccordions_flags [of "[[item_open, item_markup_shown]]" rnd0]
    initAccordions_flags [of "[[item_closed, item_markup_shown]]" rnd0] h
  show ?thesis by simp
qed

text \<open>
  The claim as written has every panel hidden after initialisation. A panel that the
  markup does not hide is still shown after it, with \<open>aria-expanded = "false"\<close> on its
  trigger.
\<close>

theorem init_panel_not_hidden_counterexample:
  "getAttribute ''aria-expanded''
      (btn (initAccordions rnd0 [[item_markup_shown]] ! 0 ! 0)) = Some ''false''
   \<and> \<not> hidden (panel (initAccordions rnd0 [[item_markup_shown]] ! 0 ! 0))"
  by (simp add: nth_initAccordions nth_initAccordion initItem_flags
      item_markup_shown_def panel_shown_def)

section \<open>Form validation\<close>

text \<open>
  A JavaScript string is a list of UTF-16 code units; \<open>js\<close> is the string of an ASCII
  literal. The two regular expressions of the submit handler are anchored at both ends
  and are sequences of character classes, each taken once or with \<^verbatim>\<open>+\<close>; \<open>rmatch\<close> is
  the backtracking matcher for such sequences, so that \<^verbatim>\<open>re.test(s)\<close> is \<open>rmatch re s\<close>.
  \<^verbatim>\<open>\d\<close> is an ASCII digit and \<^verbatim>\<open>\s\<close> is the white space and line terminators of
  ECMAScript; 45 is the hyphen, 64 the at sign and 46 the full stop.

  The form gives the value of \<^verbatim>\<open>input[name="tel"]\<close> and of \<^verbatim>\<open>input[type="email"]\<close>, \<open>None\<close>
  for a field that is absent. The handler takes the form and the answer of the user to
  the confirmation prompt; its outcome says whether the default action was prevented,
  which of the two alert messages was shown, which field received the focus, and
  whether the prompt was shown.
\<close>

type_synonym jsstring = "nat list"

definition js :: "string \<Rightarrow> jsstring" where
  "js s = map of_char s"

definition is_digit :: "nat \<Rightarrow> bool" where
  "is_digit c = (48 \<le> c \<and> c \<le> 57)"

definition is_space :: "nat \<Rightarrow> bool" where
  "is_space c =
     (c \<in> {9, 10, 11, 12, 13, 32, 160, 5760, 8232, 8233, 8239, 8287, 12288, 65279}
      \<or> (8192 \<le> c \<and> c \<le> 8202))"

datatype atom = Once "nat \<Rightarrow> bool" | OneOrMore "nat \<Rightarrow> bool"

fun rmatch :: "atom list \<Rightarrow> jsstring \<Rightarrow> bool" where
  "rmatch [] s = (s = [])"
| "rmatch (Once p # r) [] = False"
| "rmatch (Once p # r) (c # s) = (p c \<and> rmatch r s)"
| "rmatch (OneOrMore p # r) [] = False"
| "rmatch (OneOrMore p # r) (c # s) = (p c \<and> (rmatch (OneOrMore p # r) s \<or> rmatch r s))"

definition tel_class :: "nat \<Rightarrow> bool" where
  "tel_class c = (is_digit c \<or> c = 45 \<or> is_space c)"

definition tel_re :: "atom list" where
  "tel_re = [OneOrMore tel_class]"

definition not_space_at :: "nat \<Rightarrow> bool" where
  "not_space_at c = (\<not> (is_space c \<or> c = 64))"

definition email_re :: "atom list" where
  "email_re = [OneOrMore not_space_at, Once (\<lambda>c. c = 64), OneOrMore not_space_at,
               Once (\<lambda>c. c = 46), OneOrMore not_space_at]"

record form =
  tel :: "jsstring option"
  email :: "jsstring option"

datatype field = TelField | EmailField

datatype message = TelFormatError | EmailFormatError

record outcome =
  defaultPrevented :: bool
  alerted :: "message option"
  focused :: "field option"
  confirmAsked :: bool

definition tel_fails :: "form \<Rightarrow> bool" where
  "tel_fails f = (case tel f of None \<Rightarrow> False | Some v \<Rightarrow> v \<noteq> [] \<and> \<not> rmatch tel_re v)"

definition email_fails :: "form \<Rightarrow> bool" where
  "email_fails f = (case email f of None \<Rightarrow> False | Some v \<Rightarrow> v \<noteq> [] \<and> \<not> rmatch email_re v)"

definition submit :: "form \<Rightarrow> bool \<Rightarrow> outcome" where
  "submit f ok =
     (if tel_fails f then
        \<lparr>defaultPrevented = True, alerted = Some TelFormatError,
         focused = Some TelField, confirmAsked = False\<rparr>
      else if email_fails f then
        \<lparr>defaultPrevented = True, alerted = Some EmailFormatError,
         focused = Some EmailField, confirmAsked = False\<rparr>
      else
        \<lparr>defaultPrevented = \<not> ok, alerted = None, focused = None, confirmAsked = True\<rparr>)"

lemma rmatch_single: "rmatch [OneOrMore p] s = (s \<noteq> [] \<and> list_all p s)"
proof (induction s)
  case Nil
  show ?case by simp
next
  case (Cons c s)
  then show ?case by (cases s) auto
qed

lemma rmatch_Once: "rmatch (Once p # r) s = (\<exists>c t. s = c # t \<and> p c \<and> rmatch r t)"
  by (cases s) auto

lemma rmatch_OneOrMore:
  "rmatch (OneOrMore p # r) s = (\<exists>a b. s = a @ b \<and> a \<noteq> [] \<and> list_all p a \<and> rmatch r b)"
proof (induction s)
  case Nil
  show ?case by simp
next
  case (Cons c s)
  show ?case
  proof
    assume "rmatch (OneOrMore p # r) (c # s)"
    then have pc: "p c" and alt: "rmatch (OneOrMore p # r) s \<or> rmatch r s"
      by simp_all
    from alt show "\<exists>a b. c # s = a @ b \<and> a \<noteq> [] \<and> list_all p a \<and> rmatch r b"
    proof
      assume "rmatch (OneOrMore p # r) s"
      with Cons.IH obtain a b where "s = a @ b" "list_all p a" "rmatch r b"
        by blast
      with pc have "c # s = (c # a) @ b \<and> c # a \<noteq> [] \<and> list_all p (c # a) \<and> rmatch r b"
        by simp
      then show ?thesis by blast
    next
      assume "rmatch r s"
      with pc have "c # s = [c] @ s \<and> [c] \<noteq> [] \<and> list_all p [c] \<and> rmatch r s"
        by simp
      then show ?thesis by blast
    qed
  next
    assume "\<exists>a b. c # s = a @ b \<and> a \<noteq> [] \<and> list_all p a \<and> rmatch r b"
    then obtain a b where ab: "c # s = a @ b" "a \<noteq> []" "list_all p a" "rmatch r b"
      by blast
    then obtain a' where a: "a = c # a'" "s = a' @ b"
      by (cases a) auto
    show "rmatch (OneOrMore p # r) (c # s)"
    proof (cases "a' = []")
      case True
      with a ab show ?thesis by simp
    next
      case False
      with a ab Cons.IH have "rmatch (OneOrMore p # r) s"
        by auto
      with a ab show ?thesis by simp
    qed
  qed
qed

lemma email_shape:
  "rmatch email_re v =
     (\<exists>a b c. v = a @ [64] @ b @ [46] @ c \<and> a \<noteq> [] \<and> b \<noteq> [] \<and> c \<noteq> []
        \<and> list_all not_space_at a \<and> list_all not_space_at b \<and> list_all not_space_at c)"
proof
  assume "rmatch email_re v"
  then obtain a r1 where 1: "v = a @ r1" "a \<noteq> []" "list_all not_space_at a"
      and "rmatch [Once (\<lambda>c. c = 64), OneOrMore not_space_at, Once (\<lambda>c. c = 46),
                   OneOrMore not_space_at] r1"
    unfolding email_re_def rmatch_OneOrMore [of _ "Once _ # _"] by blast
  then obtain r2 where 2: "r1 = 64 # r2"
      and "rmatch [OneOrMore not_space_at, Once (\<lambda>c. c = 46), OneOrMore not_space_at] r2"
    unfolding rmatch_Once by blast
  then obtain b r3 where 3: "r2 = b @ r3" "b \<noteq> []" "list_all not_space_at b"
      and "rmatch [Once (\<lambda>c. c = 46), OneOrMore not_space_at] r3"
    unfolding rmatch_OneOrMore [of _ "Once _ # _"] by blast
  then obtain c where 4: "r3 = 46 # c" and "rmatch [OneOrMore not_space_at] c"
    unfolding rmatch_Once by blast
  then have 5: "c \<noteq> []" "list_all not_space_at c"
    by (simp_all add: rmatch_single)
  from 1 2 3 4 have "v = a @ [64] @ b @ [46] @ c"
    by simp
  with 1 3 5 show "\<exists>a b c. v = a @ [64] @ b @ [46] @ c \<and> a \<noteq> [] \<and> b \<noteq> [] \<and> c \<noteq> []
        \<and> list_all not_space_at a \<and> list_all not_space_at b \<and> list_all not_space_at c"
    by blast
next
  assume "\<exists>a b c. v = a @ [64] @ b @ [46] @ c \<and> a \<noteq> [] \<and> b \<noteq> [] \<and> c \<noteq> []
        \<and> list_all not_space_at a \<and> list_all not_space_at b \<and> list_all not_space_at c"
  then obtain a b c where v: "v = a @ (64 # b @ (46 # c))"
      and ne: "a \<noteq> []" "b \<noteq> []" "c \<noteq> []"
      and cl: "list_all not_space_at a" "list_all not_space_at b" "list_all not_space_at c"
    by auto
  have "rmatch [OneOrMore not_space_at] c"
    using ne cl by (simp add: rmatch_single)
  then have "rmatch [Once (\<lambda>c. c = 46), OneOrMore not_space_at] (46 # c)"
    by simp
  then have "rmatch [OneOrMore not_space_at, Once (\<lambda>c. c = 46), OneOrMore not_space_at]
      (b @ (46 # c))"
    unfolding rmatch_OneOrMore [of _ "Once _ # _"] using ne cl by blast
  then have "rmatch [Once (\<lambda>c. c = 64), OneOrMore not_space_at, Once (\<lambda>c. c = 46),
      OneOrMore not_space_at] (64 # b @ (46 # c))"
    by simp
  then show "rmatch email_re v"
    unfolding email_re_def v rmatch_OneOrMore [of _ "Once _ # _"] using ne cl by blast
qed

lemma tel_fails_iff:
  "tel_fails f = (\<exists>v. tel f = Some v \<and> v \<noteq> [] \<and> (\<exists>c \<in> set v. \<not> tel_class c))"
  by (auto simp: tel_fails_def tel_re_def rmatch_single list_all_iff split: option.splits)

text \<open>
  Claim C5. When the telephone field is present and not empty and its value has a
  character that is not a digit, a hyphen or white space, the handler prevents the
  default action, shows the telephone message and moves the focus to the telephone
  field (and asks for no confirmation). When the field is absent, empty or made of such
  characters only, the telephone rule does not fire. The rule rejects \<open>"abc-123"\<close> and
  accepts \<open>"090-1234-5678"\<close>.
\<close>

theorem tel_rule:
  "(tel f = Some v \<and> v \<noteq> [] \<and> (\<exists>c \<in> set v. \<not> (is_digit c \<or> c = 45 \<or> is_space c)) \<longrightarrow>
      submit f ok = \<lparr>defaultPrevented = True, alerted = Some TelFormatError,
                     focused = Some TelField, confirmAsked = False\<rparr>)
   \<and> (tel f = None \<or> tel f = Some []
        \<or> (\<exists>w. tel f = Some w \<and> (\<forall>c \<in> set w. is_digit c \<or> c = 45 \<or> is_space c)) \<longrightarrow>
      alerted (submit f ok) \<noteq> Some TelFormatError \<and> focused (submit f ok) \<noteq> Some TelField)
   \<and> \<not> rmatch tel_re (js ''abc-123'')
   \<and> rmatch tel_re (js ''090-1234-5678'')"
proof (intro conjI impI)
  assume "tel f = Some v \<and> v \<noteq> [] \<and> (\<exists>c \<in> set v. \<not> (is_digit c \<or> c = 45 \<or> is_space c))"
  then have "tel_fails f"
    unfolding tel_fails_iff tel_class_def by blast
  then show "submit f ok = \<lparr>defaultPrevented = True, alerted = Some TelFormatError,
                     focused = Some TelField, confirmAsked = False\<rparr>"
    by (simp add: submit_def)
next
  assume a: "tel f = None \<or> tel f = Some []
        \<or> (\<exists>w. tel f = Some w \<and> (\<forall>c \<in> set w. is_digit c \<or> c = 45 \<or> is_space c))"
  then have nf: "\<not> tel_fails f"
    unfolding tel_fails_iff tel_class_def by auto
  then show "alerted (submit f ok) \<noteq> Some TelFormatError"
    by (simp add: submit_def)
  from nf show "focused (submit f ok) \<noteq> Some TelField"
    by (simp add: submit_def)
next
  show "\<not> rmatch tel_re (js ''abc-123'')"
    by (simp add: tel_re_def js_def tel_class_def is_digit_def is_space_def)
  show "rmatch tel_re (js ''090-1234-5678'')"
    by (simp add: tel_re_def js_def tel_class_def is_digit_def is_space_def)
qed

definition form_bad_tel :: form where
  "form_bad_tel = \<lparr>tel = Some (js ''abc-123''), email = Some (js ''not-an-email'')\<rparr>"

definition form_good_tel :: form where
  "form_good_tel = \<lparr>tel = Some (js ''090-1234-5678''), email = None\<rparr>"

theorem tel_rule_witness:
  "tel form_bad_tel = Some (js ''abc-123'')
   \<and> defaultPrevented (submit form_bad_tel True)
   \<and> alerted (submit form_bad_tel True) = Some TelFormatError
   \<and> focused (submit form_bad_tel True) = Some TelField
   \<and> \<not> confirmAsked (submit form_bad_tel True)
   \<and> alerted (submit form_good_tel True) \<noteq> Some TelFormatError
   \<and> focused (submit form_good_tel True) \<noteq> Some TelField"
proof -
  have bad: "tel form_bad_tel = Some (js ''abc-123'') \<and> js ''abc-123'' \<noteq> []
      \<and> (\<exists>c \<in> set (js ''abc-123''). \<not> (is_digit c \<or> c = 45 \<or> is_space c))"
    by (simp add: form_bad_tel_def js_def is_digit_def is_space_def)
  have good: "\<exists>w. tel form_good_tel = Some w
      \<and> (\<forall>c \<in> set w. is_digit c \<or> c = 45 \<or> is_space c)"
    by (simp add: form_good_tel_def js_def is_digit_def is_space_def)
  from tel_rule [of form_bad_tel "js ''abc-123''" True] tel_rule [of form_good_tel _ True]
    bad good
  show ?thesis by simp
qed

text \<open>
  Claim C6. When the telephone rule did not fire and the email field is present, not
  empty and fails the pattern, the handler prevents the default action, shows the email
  message and moves the focus to the email field. When the telephone rule fires, its
  message and focus are the outcome whatever the email field holds. A value passes the
  pattern exactly when it is \<open>a @ b . c\<close> with \<open>a\<close>, \<open>b\<close> and \<open>c\<close> non-empty and free of
  white space and at signs. The rule rejects \<open>"not-an-email"\<close> and accepts
  \<open>"user@example.com"\<close>.
\<close>

theorem email_rule:
  "(\<not> tel_fails f \<and> email f = Some v \<and> v \<noteq> [] \<and> \<not> rmatch email_re v \<longrightarrow>
      submit f ok = \<lparr>defaultPrevented = True, alerted = Some EmailFormatError,
                     focused = Some EmailField, confirmAsked = False\<rparr>)
   \<and> (tel_fails f \<longrightarrow>
        alerted (submit f ok) = Some TelFormatError \<and> focused (submit f ok) = Some TelField)
   \<and> (email f = None \<or> email f = Some [] \<or> (\<exists>w. email f = Some w \<and> rmatch email_re w) \<longrightarrow>
        alerted (submit f ok) \<noteq> Some EmailFormatError
      \<and> focused (submit f ok) \<noteq> Some EmailField)
   \<and> tel_fails f = (\<exists>w. tel f = Some w \<and> w \<noteq> []
                        \<and> (\<exists>c \<in> set w. \<not> (is_digit c \<or> c = 45 \<or> is_space c)))
   \<and> rmatch email_re v =
       (\<exists>a b c. v = a @ [64] @ b @ [46] @ c \<and> a \<noteq> [] \<and> b \<noteq> [] \<and> c \<noteq> []
          \<and> list_all not_space_at a \<and> list_all not_space_at b \<and> list_all not_space_at c)
   \<and> \<not> rmatch email_re (js ''not-an-email'')
   \<and> rmatch email_re (js ''user@example.com'')"
proof (intro conjI impI)
  assume "\<not> tel_fails f \<and> email f = Some v \<and> v \<noteq> [] \<and> \<not> rmatch email_re v"
  then show "submit f ok = \<lparr>defaultPrevented = True, alerted = Some EmailFormatError,
                     focused = Some EmailField, confirmAsked = False\<rparr>"
    by (simp add: submit_def email_fails_def)
next
  assume "tel_fails f"
  then show "alerted (submit f ok) = Some TelFormatError"
    and "focused (submit f ok) = Some TelField"
    by (simp_all add: submit_def)
next
  assume "email f = None \<or> email f = Some [] \<or> (\<exists>w. email f = Some w \<and> rmatch email_re w)"
  then have "\<not> email_fails f"
    by (auto simp: email_fails_def)
  then show "alerted (submit f ok) \<noteq> Some EmailFormatError"
    and "focused (submit f ok) \<noteq> Some EmailField"
    by (simp_all add: submit_def)
next
  show "tel_fails f = (\<exists>w. tel f = Some w \<and> w \<noteq> []
                        \<and> (\<exists>c \<in> set w. \<not> (is_digit c \<or> c = 45 \<or> is_space c)))"
    by (simp add: tel_fails_iff tel_class_def)
  show "rmatch email_re v =
       (\<exists>a b c. v = a @ [64] @ b @ [46] @ c \<and> a \<noteq> [] \<and> b \<noteq> [] \<and> c \<noteq> []
          \<and> list_all not_space_at a \<and> list_all not_space_at b \<and> list_all not_space_at c)"
    by (rule email_shape)
  show "\<not> rmatch email_re (js ''not-an-email'')"
    by (simp add: email_re_def js_def not_space_at_def is_space_def)
  show "rmatch email_re (js ''user@example.com'')"
    by (simp add: email_re_def js_def not_space_at_def is_space_def)
qed

definition form_bad_email :: form where
  "form_bad_email = \<lparr>tel = Some (js ''090-1234-5678''), email = Some (js ''not-an-email'')\<rparr>"

definition form_good :: form where
  "form_good = \<lparr>tel = Some (js ''090-1234-5678''), email = Some (js ''user@example.com'')\<rparr>"

theorem email_rule_witness:
  "\<not> tel_fails form_bad_email
   \<and> submit form_bad_email True
       = \<lparr>defaultPrevented = True, alerted = Some EmailFormatError,
          focused = Some EmailField, confirmAsked = False\<rparr>
   \<and> tel_fails form_bad_tel
   \<and> alerted (submit form_bad_tel True) = Some TelFormatError
   \<and> alerted (submit form_good True) \<noteq> Some EmailFormatError"
proof -
  have t1: "\<not> tel_fails form_bad_email" and t2: "tel_fails form_bad_tel"
    by (simp_all add: tel_fails_def form_bad_email_def form_bad_tel_def tel_re_def js_def
        tel_class_def is_digit_def is_space_def)
  have e1: "email form_bad_email = Some (js ''not-an-email'') \<and> js ''not-an-email'' \<noteq> []"
    by (simp add: form_bad_email_def js_def)
  have e2: "\<exists>w. email form_good = Some w \<and> rmatch email_re w"
    using email_rule [of form_good "[]" True] by (simp add: form_good_def)
  from email_rule [of form_bad_email "js ''not-an-email''" True]
    email_rule [of form_bad_tel "[]" True] email_rule [of form_good "[]" True] t1 t2 e1 e2
  show ?thesis by simp
qed

section \<open>The debounce utility\<close>

text \<open>
  \<^verbatim>\<open>debounce(fn, wait)\<close> returns a wrapper that owns one variable, \<^verbatim>\<open>t\<close>, the handle of the
  timeout it set last (the field \<open>timer_t\<close>). The timeouts of the browser are a table
  \<open>timers\<close> of entries (handle, due time, \<^verbatim>\<open>this\<close>, arguments): the callback that the wrapper
  hands to \<^verbatim>\<open>setTimeout\<close> is \<^verbatim>\<open>() => fn.apply(this, args)\<close>, so an entry keeps the two values
  it captures. \<open>calls\<close> is the log of the calls of \<^verbatim>\<open>fn\<close>, each with its time. Time is
  counted in milliseconds. \<open>debounce\<close> is the state of a fresh wrapper, \<open>invoke\<close> one call
  of the wrapper (\<^verbatim>\<open>clearTimeout(t); t = setTimeout(..., wait)\<close>), and \<open>turn\<close> a turn of the
  event loop, which runs the timeouts that are due and no other. A history is a list of
  timed events, calls of the wrapper and turns of the event loop.
\<close>

record ('c, 'a) debounced =
  timer_t :: "nat option"
  timers :: "(nat \<times> nat \<times> 'c \<times> 'a) list"
  nextHandle :: nat
  calls :: "(nat \<times> 'c \<times> 'a) list"

definition debounce :: "('c, 'a) debounced" where
  "debounce = \<lparr>timer_t = None, timers = [], nextHandle = 1, calls = []\<rparr>"

fun clearTimeout :: "nat option \<Rightarrow> (nat \<times> nat \<times> 'c \<times> 'a) list \<Rightarrow> (nat \<times> nat \<times> 'c \<times> 'a) list" where
  "clearTimeout None tm = tm"
| "clearTimeout (Some h) tm = filter (\<lambda>e. fst e \<noteq> h) tm"

definition invoke :: "nat \<Rightarrow> nat \<Rightarrow> 'c \<Rightarrow> 'a \<Rightarrow> ('c, 'a) debounced \<Rightarrow> ('c, 'a) debounced" where
  "invoke wait now this args s =
     (let tm = clearTimeout (timer_t s) (timers s); h = nextHandle s
      in s\<lparr>timer_t := Some h, timers := tm @ [(h, now + wait, this, args)],
           nextHandle := Suc h\<rparr>)"

definition turn :: "nat \<Rightarrow> ('c, 'a) debounced \<Rightarrow> ('c, 'a) debounced" where
  "turn now s =
     s\<lparr>timers := filter (\<lambda>e. now < fst (snd e)) (timers s),
       calls := calls s @ map (\<lambda>e. (now, snd (snd e)))
                  (filter (\<lambda>e. fst (snd e) \<le> now) (timers s))\<rparr>"

datatype ('c, 'a) event = Invoke 'c 'a | Turn

fun step :: "nat \<Rightarrow> nat \<times> ('c, 'a) event \<Rightarrow> ('c, 'a) debounced \<Rightarrow> ('c, 'a) debounced" where
  "step wait (now, Invoke this args) s = invoke wait now this args s"
| "step wait (now, Turn) s = turn now s"

fun run :: "nat \<Rightarrow> (nat \<times> ('c, 'a) event) list \<Rightarrow> ('c, 'a) debounced \<Rightarrow> ('c, 'a) debounced" where
  "run wait [] s = s"
| "run wait (e # es) s = run wait es (step wait e s)"

fun invokes :: "(nat \<times> ('c, 'a) event) list \<Rightarrow> (nat \<times> 'c \<times> 'a) list" where
  "invokes [] = []"
| "invokes ((now, Invoke this args) # es) = (now, this, args) # invokes es"
| "invokes ((now, Turn) # es) = invokes es"

fun spaced :: "nat \<Rightarrow> nat option \<Rightarrow> nat list \<Rightarrow> bool" where
  "spaced wait d [] = True"
| "spaced wait d (x # xs) =
     ((case d of None \<Rightarrow> True | Some due \<Rightarrow> x < due) \<and> spaced wait (Some (x + wait)) xs)"

definition pending :: "nat option \<Rightarrow> ('c, 'a) debounced \<Rightarrow> bool" where
  "pending d s =
     (calls s = [] \<and>
      (case d of None \<Rightarrow> timers s = []
       | Some due \<Rightarrow> \<exists>h c a. timer_t s = Some h \<and> timers s = [(h, due, c, a)]))"

lemma run_append: "run wait (xs @ ys) s = run wait ys (run wait xs s)"
  by (induction xs arbitrary: s) simp_all

lemma clearTimeout_Nil [simp]: "clearTimeout h [] = []"
  by (cases h) simp_all

lemma invoke_pending:
  assumes "pending d s"
  shows "calls (invoke wait now c a s) = []
    \<and> timer_t (invoke wait now c a s) = Some (nextHandle s)
    \<and> timers (invoke wait now c a s) = [(nextHandle s, now + wait, c, a)]"
  using assms by (auto simp: pending_def invoke_def Let_def split: option.splits)

lemma turn_pending:
  assumes "pending d s" and "case d of None \<Rightarrow> True | Some due \<Rightarrow> now < due"
  shows "pending d (turn now s)"
  using assms by (auto simp: pending_def turn_def split: option.splits)

lemma invokes_times: "set (map fst (invokes es)) \<subseteq> set (map fst es)"
  by (induction es rule: invokes.induct) auto

lemma before_deadline:
  assumes "spaced wait (Some due) (map fst (invokes es))" and "invokes es \<noteq> []"
    and "\<forall>x \<in> set (map fst es). now \<le> x"
  shows "now < due"
proof -
  from assms(2) obtain x xs where x: "map fst (invokes es) = x # xs"
    by (cases "invokes es") auto
  then have "x \<in> set (map fst es)"
    using invokes_times [of es] by (metis list.set_intros(1) subsetD)
  with assms(3) have "now \<le> x" by blast
  moreover from assms(1) x have "x < due" by simp
  ultimately show ?thesis by simp
qed

lemma invokes_last: "invokes (es @ [(now, Invoke c a)]) \<noteq> []"
  by (induction es rule: invokes.induct) simp_all

lemma run_to_last_invoke:
  assumes "sorted (map fst (pre @ [(tN, Invoke cN aN)]))"
    and "spaced wait d (map fst (invokes (pre @ [(tN, Invoke cN aN)])))"
    and "pending d s"
  shows "\<exists>h. calls (run wait (pre @ [(tN, Invoke cN aN)]) s) = []
    \<and> timers (run wait (pre @ [(tN, Invoke cN aN)]) s) = [(h, tN + wait, cN, aN)]"
  using assms
proof (induction pre arbitrary: d s)
  case Nil
  then show ?case using invoke_pending [of d s wait tN cN aN] by simp
next
  case (Cons e pre)
  obtain now ev where e: "e = (now, ev)" by (cases e)
  have srt: "sorted (map fst (pre @ [(tN, Invoke cN aN)]))"
    and le: "\<forall>x \<in> set (map fst (pre @ [(tN, Invoke cN aN)])). now \<le> x"
    using Cons.prems(1) e by simp_all
  show ?case
  proof (cases ev)
    case (Invoke c a)
    have sp: "spaced wait (Some (now + wait)) (map fst (invokes (pre @ [(tN, Invoke cN aN)])))"
      using Cons.prems(2) e Invoke by simp
    have "pending (Some (now + wait)) (invoke wait now c a s)"
      using invoke_pending [OF Cons.prems(3), of wait now c a] by (simp add: pending_def)
    from Cons.IH [OF srt sp this] show ?thesis
      using e Invoke by simp
  next
    case Turn
    have sp: "spaced wait d (map fst (invokes (pre @ [(tN, Invoke cN aN)])))"
      using Cons.prems(2) e Turn by simp
    have "case d of None \<Rightarrow> True | Some due \<Rightarrow> now < due"
    proof (cases d)
      case None
      then show ?thesis by simp
    next
      case (Some due)
      with sp le invokes_last [of pre tN cN aN] show ?thesis
        using before_deadline [of wait due "pre @ [(tN, Invoke cN aN)]" now] by simp
    qed
    then have "pending d (turn now s)"
      using Cons.prems(3) by (intro turn_pending)
    from Cons.IH [OF srt sp this] show ?thesis
      using e Turn by simp
  qed
qed

lemma turns_idle:
  assumes "\<forall>e \<in> set post. snd e = Turn" and "timers s = []"
  shows "calls (run wait post s) = calls s"
  using assms
proof (induction post arbitrary: s)
  case Nil
  show ?case by simp
next
  case (Cons e post)
  obtain now ev where e: "e = (now, ev)" by (cases e)
  with Cons.prems have ev: "ev = Turn" by simp
  have "timers (turn now s) = []" "calls (turn now s) = calls s"
    using Cons.prems(2) by (simp_all add: turn_def)
  with Cons.IH [of "turn now s"] Cons.prems(1) show ?case
    using e ev by simp
qed

lemma turns_fire:
  assumes "\<forall>e \<in> set post. snd e = Turn" and "timers s = [(h, due, c, a)]" and "calls s = []"
  shows "(calls (run wait post s) = [] \<and> (\<forall>e \<in> set post. fst e < due))
    \<or> (\<exists>now \<ge> due. calls (run wait post s) = [(now, c, a)])"
  using assms
proof (induction post arbitrary: s)
  case Nil
  then show ?case by simp
next
  case (Cons e post)
  obtain now ev where e: "e = (now, ev)" by (cases e)
  with Cons.prems have ev: "ev = Turn" by simp
  show ?case
  proof (cases "due \<le> now")
    case True
    then have "timers (turn now s) = []" "calls (turn now s) = [(now, c, a)]"
      using Cons.prems(2,3) by (simp_all add: turn_def)
    with turns_idle [of post "turn now s" wait] Cons.prems(1)
    have "calls (run wait (e # post) s) = [(now, c, a)]"
      using e ev by simp
    with True show ?thesis by blast
  next
    case False
    then have "timers (turn now s) = [(h, due, c, a)]" "calls (turn now s) = []"
      using Cons.prems(2,3) by (simp_all add: turn_def)
    with Cons.IH [of "turn now s"] Cons.prems(1) False show ?thesis
      using e ev by auto
  qed
qed

text \<open>
  Claim C4. Take any history in time order that ends, after its last call of the
  wrapper at time \<open>tN\<close> with context \<open>cN\<close> and arguments \<open>aN\<close>, with turns of the event loop
  only, and in which every call of the wrapper comes less than \<open>wait\<close> after the call
  before it. Then \<^verbatim>\<open>fn\<close> is called at most once, and only with \<open>cN\<close> and \<open>aN\<close>, at a time of
  at least \<open>tN + wait\<close>; and it is called exactly once as soon as the event loop has a
  turn at or after \<open>tN + wait\<close>.
\<close>

theorem debounce_trailing:
  assumes "sorted (map fst (pre @ (tN, Invoke cN aN) # post))"
    and "spaced wait None (map fst (invokes (pre @ [(tN, Invoke cN aN)])))"
    and "\<forall>e \<in> set post. snd e = Turn"
  shows "(calls (run wait (pre @ (tN, Invoke cN aN) # post) debounce) = []
          \<or> (\<exists>now \<ge> tN + wait.
                calls (run wait (pre @ (tN, Invoke cN aN) # post) debounce) = [(now, cN, aN)]))
    \<and> ((\<exists>e \<in> set post. tN + wait \<le> fst e) \<longrightarrow>
          (\<exists>now \<ge> tN + wait.
              calls (run wait (pre @ (tN, Invoke cN aN) # post) debounce) = [(now, cN, aN)]))"
proof -
  let ?s = "run wait (pre @ [(tN, Invoke cN aN)]) debounce"
  have split: "run wait (pre @ (tN, Invoke cN aN) # post) debounce = run wait post ?s"
    using run_append [of wait "pre @ [(tN, Invoke cN aN)]" post debounce] by simp
  have "\<exists>h. calls ?s = [] \<and> timers ?s = [(h, tN + wait, cN, aN)]"
  proof (rule run_to_last_invoke [OF _ assms(2)])
    show "sorted (map fst (pre @ [(tN, Invoke cN aN)]))"
      using assms(1) by (simp add: sorted_append)
    show "pending None debounce"
      by (simp add: pending_def debounce_def)
  qed
  then obtain h where "calls ?s = []" "timers ?s = [(h, tN + wait, cN, aN)]"
    by blast
  from turns_fire [OF assms(3) this(2) this(1), of wait] show ?thesis
    unfolding split by fastforce
qed

definition five_calls :: "(nat \<times> (nat, string) event) list" where
  "five_calls = [(0, Invoke 7 ''a''), (50, Invoke 7 ''b''), (60, Turn), (100, Invoke 7 ''c''),
                 (150, Invoke 7 ''d'')]"

definition later_turns :: "(nat \<times> (nat, string) event) list" where
  "later_turns = [(300, Turn), (398, Turn), (402, Turn), (900, Turn)]"

theorem debounce_trailing_witness:
  "sorted (map fst (five_calls @ (199, Invoke 8 ''e'') # later_turns))
   \<and> spaced 200 None (map fst (invokes (five_calls @ [(199, Invoke 8 ''e'')])))
   \<and> (\<exists>now \<ge> 199 + 200.
        calls (run 200 (five_calls @ (199, Invoke 8 ''e'') # later_turns) debounce)
          = [(now, 8, ''e'')])
   \<and> calls (run 200 (five_calls @ (199, Invoke 8 ''e'') # later_turns) debounce)
        = [(402, 8, ''e'')]"
proof -
  have v: "calls (run 200 (five_calls @ (199, Invoke 8 ''e'') # later_turns) debounce)
        = [(402, 8, ''e'')]"
    by (simp add: five_calls_def later_turns_def debounce_def invoke_def turn_def Let_def)
  have a: "sorted (map fst (five_calls @ (199, Invoke 8 ''e'') # later_turns))"
    and b: "spaced 200 None (map fst (invokes (five_calls @ [(199, Invoke 8 ''e'')])))"
    and c: "\<forall>e \<in> set later_turns. snd e = Turn"
    and d: "\<exists>e \<in> set later_turns. 199 + 200 \<le> fst e"
    by (simp_all add: five_calls_def later_turns_def)
  from debounce_trailing [OF a b c] d a b v show ?thesis
    by blast
qed

end
